theory Spec2Isabelle
  imports Main
begin

section \<open>JavaScript values and objects\<close>

text \<open>
  The values a test author can hand to the helper: mock substitutes, entity descriptors and
  declarations. An object is the list of its own enumerable properties in insertion order,
  which is the order \<open>Object.keys\<close> reports for string keys.
\<close>

datatype jsval =
    JUndefined
  | JNull
  | JBool bool
  | JNum int
  | JStr string
  | JObject "(string \<times> jsval) list"
  | JFunction nat

text \<open>JavaScript's ToBoolean, as applied by \<open>if (...)\<close>, \<open>||\<close> and \<open>!\<close>.\<close>

fun truthy :: "jsval \<Rightarrow> bool" where
  "truthy JUndefined = False"
| "truthy JNull = False"
| "truthy (JBool b) = b"
| "truthy (JNum n) = (n \<noteq> 0)"
| "truthy (JStr s) = (s \<noteq> [])"
| "truthy (JObject ps) = True"
| "truthy (JFunction f) = True"

type_synonym 'v obj = "(string \<times> 'v) list"

text \<open>\<open>o[key]\<close>: \<open>None\<close> is JavaScript's \<open>undefined\<close> for a missing property.\<close>

definition obj_get :: "'v obj \<Rightarrow> string \<Rightarrow> 'v option" where
  "obj_get ob key = map_of ob key"

text \<open>\<open>o[key] = v\<close>: an existing property keeps its place, a new one is added last.\<close>

fun obj_set :: "'v obj \<Rightarrow> string \<Rightarrow> 'v \<Rightarrow> 'v obj" where
  "obj_set [] key v = [(key, v)]"
| "obj_set ((k, w) # ps) key v = (if k = key then (k, v) # ps else (k, w) # obj_set ps key v)"

definition obj_keys :: "'v obj \<Rightarrow> string list" where
  "obj_keys ob = remdups (map fst ob)"

text \<open>
  The loop \<open>Object.keys(o).forEach(function(key) { result[key] = o[key]; })\<close> of \<open>merge\<close>.
\<close>

definition copy_into :: "'v obj \<Rightarrow> 'v obj \<Rightarrow> 'v obj" where
  "copy_into result ob =
     foldl (\<lambda>r key. case obj_get ob key of None \<Rightarrow> r | Some v \<Rightarrow> obj_set r key v)
       result (obj_keys ob)"

text \<open>
  \<open>merge(obj1, obj2)\<close>: a fresh object with the properties of \<open>obj1\<close>, then those of
  \<open>obj2\<close>; \<open>obj || {}\<close> turns an undefined argument (\<open>None\<close>) into the empty object.
\<close>

definition merge :: "'v obj option \<Rightarrow> 'v obj option \<Rightarrow> 'v obj" where
  "merge obj1 obj2 =
     (let result = [];
          result = copy_into result (case obj1 of None \<Rightarrow> [] | Some ob \<Rightarrow> ob);
          result = copy_into result (case obj2 of None \<Rightarrow> [] | Some ob \<Rightarrow> ob)
      in result)"

section \<open>Errors and promise outcomes\<close>

datatype error =
    TypeError string
  | Error string
  | NotFoundError string
  | AssertionError string
  | Thrown jsval

text \<open>How a promise settles: fulfilled with a value or rejected with an error.\<close>

datatype outcome = Fulfilled jsval | Rejected error

section \<open>Virtual filesystem\<close>

type_synonym time = nat

text \<open>
  Modelled from the spec: the in-memory filesystem (\<open>q-io/fs-mock\<close>) is not part of the
  sources. An \<open>FsNode\<close> is a file with content, modification and access time, or a directory
  mapping names to nodes; the tree is rooted at \<open>/\<close>.
\<close>

datatype FsNode =
    File string time time
  | Directory "(string \<times> FsNode) list"

text \<open>
  The nested description given to \<open>withSourceFiles\<close>: an object value is a directory, a
  string value is a file's content.
\<close>

datatype srctree =
    SrcFile string
  | SrcDir "(string \<times> srctree) list"

primrec build_node :: "time \<Rightarrow> srctree \<Rightarrow> FsNode" where
  "build_node t (SrcFile c) = File c t t"
| "build_node t (SrcDir es) = Directory (map (map_prod id (build_node t)) es)"

text \<open>
  Modelled from the spec: \<open>new QFSMock(sources)\<close> builds the tree from the description;
  every file is stamped with the time of construction.
\<close>

definition QFSMock :: "time \<Rightarrow> srctree obj \<Rightarrow> FsNode" where
  "QFSMock t srcs = build_node t (SrcDir srcs)"

text \<open>
  Modelled from the spec: the tree is rooted at \<open>/\<close> and a path names a node by the
  keys to follow from the root. A path is resolved against the root: its components are the
  non-empty names between the separators, so \<open>a/b\<close>, \<open>/a/b\<close> and \<open>./a//b\<close> name the
  same node.
\<close>

fun split_on :: "char \<Rightarrow> string \<Rightarrow> string list" where
  "split_on c [] = [[]]"
| "split_on c (x # xs) =
     (if x = c then [] # split_on c xs
      else (case split_on c xs of [] \<Rightarrow> [[x]] | w # ws \<Rightarrow> (x # w) # ws))"

definition path_parts :: "string \<Rightarrow> string list" where
  "path_parts p = filter (\<lambda>n. n \<noteq> [] \<and> n \<noteq> ''.'') (split_on (CHR ''/'') p)"

fun walk :: "FsNode \<Rightarrow> string list \<Rightarrow> FsNode option" where
  "walk n [] = Some n"
| "walk (File c m a) (x # xs) = None"
| "walk (Directory es) (x # xs) =
     (case map_of es x of None \<Rightarrow> None | Some ch \<Rightarrow> walk ch xs)"

text \<open>Modelled from the spec: \<open>exists(path)\<close> never fails; a missing path yields false.\<close>

definition fs_exists :: "FsNode \<Rightarrow> string \<Rightarrow> bool" where
  "fs_exists root p = (walk root (path_parts p) \<noteq> None)"

text \<open>
  Modelled from the spec: \<open>read(path)\<close> fails with NotFoundError if the path is absent or
  is a directory.
\<close>

definition fs_read :: "FsNode \<Rightarrow> string \<Rightarrow> error + string" where
  "fs_read root p =
     (case walk root (path_parts p) of
        Some (File c m a) \<Rightarrow> Inr c
      | _ \<Rightarrow> Inl (NotFoundError p))"

text \<open>
  Modelled from the spec: \<open>lastModified(path)\<close> yields the file's modification time and fails
  with NotFoundError if the path is absent. A directory node carries no timestamp in the
  spec's data model; asking for one is treated like asking for an absent file.
\<close>

definition fs_lastModified :: "FsNode \<Rightarrow> string \<Rightarrow> error + time" where
  "fs_lastModified root p =
     (case walk root (path_parts p) of
        Some (File c m a) \<Rightarrow> Inr m
      | _ \<Rightarrow> Inl (NotFoundError p))"

text \<open>
  Modelled from the spec: \<open>open(path, mode)\<close> yields a scoped writable handle whose close
  finalizes the update of the timestamps, without altering the content; touching an absent
  path is a NotFoundError. The handle is the resolved location of the file.
\<close>

definition fs_open :: "FsNode \<Rightarrow> string \<Rightarrow> error + string list" where
  "fs_open root p =
     (case walk root (path_parts p) of
        Some (File c m a) \<Rightarrow> Inr (path_parts p)
      | _ \<Rightarrow> Inl (NotFoundError p))"

text \<open>
  Modelled from the spec: closing the handle sets the modification and the access time of
  the file it was opened on; nothing else in the tree changes.
\<close>

fun stamp :: "time \<Rightarrow> FsNode \<Rightarrow> string list \<Rightarrow> FsNode" where
  "stamp t (File c m a) [] = File c t t"
| "stamp t (Directory es) [] = Directory es"
| "stamp t (File c m a) (x # xs) = File c m a"
| "stamp t (Directory es) (x # xs) =
     (case map_of es x of
        None \<Rightarrow> Directory es
      | Some ch \<Rightarrow> Directory (obj_set es x (stamp t ch xs)))"

definition stream_close :: "time \<Rightarrow> FsNode \<Rightarrow> string list \<Rightarrow> FsNode" where
  "stream_close t root stream = stamp t root stream"

section \<open>Stub level\<close>

text \<open>
  Modelled from the spec: the generic level of the build framework is not part of the
  sources. Its constructor receives the level path and an options object with the project
  root; the model keeps both as given.
\<close>

record level_opts =
  projectRoot :: string

record level =
  base_path :: string
  base_opts :: level_opts

record stub_level = level +
  stub_techMap :: "string obj"

definition Level_constructor :: "string \<Rightarrow> level_opts \<Rightarrow> level" where
  "Level_constructor path opts = \<lparr> base_path = path, base_opts = opts \<rparr>"

text \<open>
  \<open>StubLevel.__constructor(path, techMap)\<close>: calls the base constructor with
  \<open>{projectRoot: '/'}\<close> and keeps the tech map.
\<close>

definition StubLevel :: "string \<Rightarrow> string obj \<Rightarrow> stub_level" where
  "StubLevel path techMap =
     level.extend (Level_constructor path \<lparr> projectRoot = ''/'' \<rparr>)
       (stub_level.fields techMap)"

definition getTechs :: "stub_level \<Rightarrow> string obj" where
  "getTechs lv = stub_techMap lv"

section \<open>Collaborators of the test session\<close>

text \<open>
  What \<open>requireMocked\<close> substitutes for a module identifier: a mock supplied by the author,
  the session's virtual filesystem itself (\<open>this._fs\<close>), or the synchronous facade
  \<open>new FSMock(this._fs)\<close> over the same tree.
\<close>

datatype mock = UserMock jsval | SessionFs | SessionFsFacade

record mock_opts =
  mocks :: "mock obj"
  resolves :: "string obj option"
  ignoreMocks :: "string list"

text \<open>
  Modelled from the spec: the framework context is not part of the sources. It is
  constructed from a primary level and an options structure, and the model keeps both,
  together with the options the class was loaded with. A key of the options object that
  the caller leaves out is \<open>None\<close>.
\<close>

record context_opts =
  opt_root :: "string option"
  opt_level :: "stub_level list option"
  opt_levels :: "stub_level list option"
  opt_declaration :: "jsval option"
  opt_tech :: "string list"

record bem_context =
  ctx_level :: "stub_level option"
  ctx_opts :: context_opts
  ctx_loaded_with :: mock_opts

definition Context_constructor ::
  "mock_opts \<Rightarrow> stub_level option \<Rightarrow> context_opts \<Rightarrow> bem_context" where
  "Context_constructor mockOpts lv opts =
     \<lparr> ctx_level = lv, ctx_opts = opts, ctx_loaded_with = mockOpts \<rparr>"

record tech_instance =
  tech_name :: string
  tech_context :: bem_context

text \<open>
  Modelled from the spec: the context exposes \<open>getTech(name)\<close>, which yields the
  technology instance of that name bound to the context.
\<close>

definition getTech :: "bem_context \<Rightarrow> string \<Rightarrow> tech_instance" where
  "getTech c name = \<lparr> tech_name = name, tech_context = c \<rparr>"

text \<open>
  The world an asynchronous operation works on: the virtual filesystem of the session
  (absent before materialization) and the clock. Calling such an operation either throws
  at once or returns a promise, of which the model keeps how it settles. An operation takes
  effect on the world when it is started: the session lets at most one be pending, so
  nothing else observes the world in between.
\<close>

type_synonym world = "FsNode option \<times> time"

datatype 'w effect = Throws error 'w | Settles outcome 'w

text \<open>
  The technology module contract: a single-entity creation operation and a whole-project
  build operation. What a module does is a parameter of the model.
\<close>

record tech_module =
  createByDecl :: "jsval \<Rightarrow> stub_level option \<Rightarrow> world \<Rightarrow> world effect"
  buildByDecl :: "jsval \<Rightarrow> stub_level list option \<Rightarrow> string \<Rightarrow> world \<Rightarrow> world effect"

type_synonym modules = "tech_instance \<Rightarrow> tech_module"

section \<open>Test session\<close>

text \<open>
  The functions passed to \<open>_enqueue\<close>, one constructor for each method that enqueues,
  with the variables the function closes over.
\<close>

datatype call =
    TouchCall string
  | CreateCall jsval "stub_level option"
  | BuildCall jsval string
  | ProducesCall string
  | ContentCall "string option" "string option"
  | WritesCall string
  | NotWritesCall string
  | AssertsCall "world \<Rightarrow> world effect"

text \<open>
  The promise held in \<open>this._promise\<close>: how the promise returned by the first call
  settled, and the handlers attached since with \<open>then\<close>, in the order of attachment.
  \<open>OnFulfilled call\<close> stands for \<open>this._promise = this._promise.then(call)\<close>: a
  fulfilment handler only, whose derived promise takes the place of the session's promise.
  \<open>Notify done\<close> stands for \<open>this._promise.then(done, done)\<close>: the completion callback
  for both fulfilment and rejection, whose derived promise is dropped.
\<close>

datatype handler = OnFulfilled call | Notify nat

record chain =
  first :: outcome
  handlers :: "handler list"

record session =
  techName :: string
  modulePath :: string
  sources :: "srctree obj option"
  mockedModules :: "jsval obj option"
  mockedResolves :: "string obj option"
  levelPaths :: "string list option"
  techMap :: "string obj option"
  fs :: "FsNode option"
  levels :: "stub_level list option"
  ctx :: "bem_context option"
  tech :: "tech_instance option"
  buildDecl :: jsval
  testStartTime :: "time option"
  lastFileName :: "string option"
  promise :: "chain option"
  clock :: time

text \<open>
  \<open>TechTest.__constructor(techName, modulePath)\<close>; every other field is undefined.
  \<open>now\<close> is the reading of the system clock.
\<close>

definition TechTest :: "time \<Rightarrow> string \<Rightarrow> string \<Rightarrow> session" where
  "TechTest now name path =
     \<lparr> techName = name, modulePath = path, sources = None, mockedModules = None,
       mockedResolves = None, levelPaths = None, techMap = None, fs = None, levels = None,
       ctx = None, tech = None, buildDecl = JUndefined, testStartTime = None,
       lastFileName = None, promise = None, clock = now \<rparr>"

text \<open>
  \<open>testTech(techName, modulePath)\<close>. \<open>PATH.basename\<close> and \<open>BEMUtil.stripModuleExt\<close> are
  library functions and are taken as parameters. A call without arguments is outside the
  documented signature and is not modelled (\<open>None\<close>).
\<close>

definition testTech ::
  "(string \<Rightarrow> string) \<Rightarrow> (string \<Rightarrow> string) \<Rightarrow> time \<Rightarrow> string list \<Rightarrow> session option" where
  "testTech basename stripModuleExt now arguments =
     (case arguments of
        [] \<Rightarrow> None
      | [a0] \<Rightarrow>
          (let path = a0;
               name = stripModuleExt (basename path)
           in Some (TechTest now name path))
      | name # path # _ \<Rightarrow> Some (TechTest now name path))"

subsection \<open>Setup methods\<close>

text \<open>
  A method returns the error it throws, if any, and the session as the call leaves it.
\<close>

type_synonym returned = "error option \<times> session"

definition withSourceFiles :: "srctree obj \<Rightarrow> session \<Rightarrow> returned" where
  "withSourceFiles srcs s = (None, s\<lparr>sources := Some srcs\<rparr>)"

definition prop_truthy :: "jsval obj \<Rightarrow> string \<Rightarrow> bool" where
  "prop_truthy ob key = (case obj_get ob key of None \<Rightarrow> False | Some v \<Rightarrow> truthy v)"

definition withMockedModules :: "jsval obj \<Rightarrow> session \<Rightarrow> returned" where
  \<open>withMockedModules modules s =
     (if prop_truthy modules ''fs'' \<or> prop_truthy modules ''q-fs''
         \<or> prop_truthy modules ''q-io/fs''
      then (Some (Error
        ''"fs", "q-fs" and "q-io/fs" modules are already mocked. Use .withSourceFiles method''), s)
      else (None, s\<lparr>mockedModules := Some (merge (mockedModules s) (Some modules))\<rparr>))\<close>

definition withMockedModulesResolves :: "string obj \<Rightarrow> session \<Rightarrow> returned" where
  "withMockedModulesResolves modulePaths s =
     (None, s\<lparr>mockedResolves := Some (merge (mockedResolves s) (Some modulePaths))\<rparr>)"

definition withLevels :: "string list \<Rightarrow> session \<Rightarrow> returned" where
  "withLevels lvs s = (None, s\<lparr>levelPaths := Some lvs\<rparr>)"

definition withLevel :: "string \<Rightarrow> session \<Rightarrow> returned" where
  "withLevel lv s = (None, snd (withLevels [lv] s))"

definition withTechMap :: "string obj \<Rightarrow> session \<Rightarrow> returned" where
  "withTechMap tm s = (None, s\<lparr>techMap := Some tm\<rparr>)"

subsection \<open>Materialization\<close>

text \<open>\<open>_getMocks\<close>: the author's mocks, overridden by the three filesystem identifiers.\<close>

definition getMocks :: "session \<Rightarrow> mock obj" where
  "getMocks s =
     merge (map_option (map (map_prod id UserMock)) (mockedModules s))
       (Some [(''q-io/fs'', SessionFs), (''q-fs'', SessionFs), (''fs'', SessionFsFacade)])"

text \<open>
  \<open>_loadLevels\<close>: \<open>this._levelPaths || ['/']\<close> and \<open>this._techMap || {}\<close> (an array and an
  object are truthy, also when empty), the entry for the technology under test, and one stub
  level for each path. The stub level class is loaded through \<open>requireMocked\<close> with
  \<open>opts\<close>; its constructor does not see them.
\<close>

definition loadLevels :: "mock_opts \<Rightarrow> session \<Rightarrow> session" where
  "loadLevels opts s =
     (let paths = (case levelPaths s of None \<Rightarrow> [''/''] | Some ps \<Rightarrow> ps);
          tm = (case techMap s of None \<Rightarrow> [] | Some m \<Rightarrow> m);
          tm = obj_set tm (techName s) (modulePath s)
      in s\<lparr>levelPaths := Some paths, techMap := Some tm,
            levels := Some (map (\<lambda>path. StubLevel path tm) paths)\<rparr>)"

text \<open>\<open>this._levels[0]\<close>: undefined for an empty array.\<close>

definition first_level :: "stub_level list option \<Rightarrow> stub_level option" where
  "first_level lvs = (case lvs of Some (lv # _) \<Rightarrow> Some lv | _ \<Rightarrow> None)"

text \<open>\<open>Object.keys(this._techMap).map(function(key) { return this._techMap[key]; })\<close>.\<close>

definition techPaths :: "string obj option \<Rightarrow> string list" where
  "techPaths tm = (case tm of None \<Rightarrow> [] | Some m \<Rightarrow> List.map_filter (obj_get m) (obj_keys m))"

definition loadContext :: "mock_opts \<Rightarrow> session \<Rightarrow> session" where
  "loadContext mockOpts s =
     (let opts = \<lparr> opt_root = Some ''/'', opt_level = levels s, opt_levels = None,
                   opt_declaration = Some (buildDecl s), opt_tech = techPaths (techMap s) \<rparr>
      in s\<lparr>ctx := Some (Context_constructor mockOpts (first_level (levels s)) opts)\<rparr>)"

definition loadTech :: "session \<Rightarrow> session" where
  "loadTech s = s\<lparr>tech := map_option (\<lambda>c. getTech c (techName s)) (ctx s)\<rparr>"

text \<open>\<open>_load\<close> of the test session.\<close>

definition load :: "session \<Rightarrow> session" where
  "load s =
     (let s = s\<lparr>fs := (case fs s of
                         Some root \<Rightarrow> Some root
                       | None \<Rightarrow> Some (QFSMock (clock s)
                                   (case sources s of None \<Rightarrow> [] | Some srcs \<Rightarrow> srcs)))\<rparr>;
          opts = \<lparr> mocks = getMocks s, resolves = mockedResolves s,
                   ignoreMocks = [''winston'', ''mime'', ''node.extend'', ''uglify-js'',
                                  ''insight''] \<rparr>;
          s = loadLevels opts s;
          s = loadContext opts s;
          s = loadTech s
      in s)"

text \<open>
  The second copy of the session class in the sources guards \<open>_load\<close> with
  \<open>if (this._tech) return;\<close>, always builds a new filesystem, and hands the context a
  smaller options object.
\<close>

definition loadContext_variant :: "mock_opts \<Rightarrow> session \<Rightarrow> session" where
  "loadContext_variant mockOpts s =
     (let opts = \<lparr> opt_root = None, opt_level = None, opt_levels = levels s,
                   opt_declaration = None, opt_tech = techPaths (techMap s) \<rparr>
      in s\<lparr>ctx := Some (Context_constructor mockOpts (first_level (levels s)) opts)\<rparr>)"

definition load_variant :: "session \<Rightarrow> session" where
  "load_variant s =
     (if tech s \<noteq> None then s
      else
        (let s = s\<lparr>fs := Some (QFSMock (clock s)
                           (case sources s of None \<Rightarrow> [] | Some srcs \<Rightarrow> srcs))\<rparr>;
             opts = \<lparr> mocks = [(''q-io/fs'', SessionFs), (''fs'', SessionFsFacade)],
                      resolves = None, ignoreMocks = [''winston'', ''mime''] \<rparr>;
             s = loadLevels opts s;
             s = loadContext_variant opts s;
             s = loadTech s
         in s))"

subsection \<open>Chain items\<close>

text \<open>
  Modelled from the spec: \<open>assert.eventually\<close> (chai-as-promised) is not part of the
  sources. A failure of the inspected promise reaches the chain as it is; an unmet
  expectation is an assertion failure with the message given.
\<close>

definition eventually :: "error + 'a \<Rightarrow> ('a \<Rightarrow> bool) \<Rightarrow> string \<Rightarrow> outcome" where
  "eventually subject holds msg =
     (case subject of
        Inl e \<Rightarrow> Rejected e
      | Inr v \<Rightarrow> if holds v then Fulfilled JUndefined else Rejected (AssertionError msg))"

definition in_session :: "session \<Rightarrow> world effect \<Rightarrow> session effect" where
  "in_session s eff =
     (case eff of
        Throws e (root, now) \<Rightarrow> Throws e (s\<lparr>fs := root, clock := now\<rparr>)
      | Settles out (root, now) \<Rightarrow> Settles out (s\<lparr>fs := root, clock := now\<rparr>))"

text \<open>String concatenation with a value that may be undefined.\<close>

definition str :: "string option \<Rightarrow> string" where
  "str x = (case x of None \<Rightarrow> ''undefined'' | Some v \<Rightarrow> v)"

text \<open>
  Calling the function that a method passed to \<open>_enqueue\<close>. A field of \<open>self\<close> is read
  when the function runs. Reading a property of an undefined \<open>self._fs\<close> or \<open>self._tech\<close>
  throws a TypeError.
\<close>

fun invoke :: "modules \<Rightarrow> call \<Rightarrow> session \<Rightarrow> session effect" where
  "invoke M (TouchCall path) s =
     (case fs s of
        None \<Rightarrow> Throws (TypeError ''Cannot read property open of undefined'') s
      | Some root \<Rightarrow>
          (case fs_open root path of
             Inl e \<Rightarrow> Settles (Rejected e) s
           | Inr stream \<Rightarrow>
               Settles (Fulfilled JUndefined)
                 (s\<lparr>fs := Some (stream_close (clock s) root stream)\<rparr>)))"
| "invoke M (CreateCall elem lv) s =
     (let s = s\<lparr>testStartTime := Some (clock s)\<rparr>
      in case tech s of
           None \<Rightarrow> Throws (TypeError ''Cannot read property createByDecl of undefined'') s
         | Some t \<Rightarrow> in_session s (createByDecl (M t) elem lv (fs s, clock s)))"
| "invoke M (BuildCall decl output) s =
     (let s = s\<lparr>testStartTime := Some (clock s)\<rparr>
      in case tech s of
           None \<Rightarrow> Throws (TypeError ''Cannot read property buildByDecl of undefined'') s
         | Some t \<Rightarrow> in_session s (buildByDecl (M t) decl (levels s) output (fs s, clock s)))"
| "invoke M (ProducesCall path) s =
     (case fs s of
        None \<Rightarrow> Throws (TypeError ''Cannot read property exists of undefined'') s
      | Some root \<Rightarrow>
          Settles (eventually (Inr (fs_exists root path)) (\<lambda>b. b)
                     (''expected tech to produce file '' @ path)) s)"
| "invoke M (ContentCall fileName content) s =
     (case fs s of
        None \<Rightarrow> Throws (TypeError ''Cannot read property read of undefined'') s
      | Some root \<Rightarrow>
          Settles (eventually
                     (case fileName of
                        None \<Rightarrow> Inl (TypeError ''path must be a string'')
                      | Some p \<Rightarrow> fs_read root p)
                     (\<lambda>actual. Some actual = content)
                     (''expected file '' @ str (lastFileName s) @ '' to have content ''
                        @ str content)) s)"
| "invoke M (WritesCall path) s =
     (case fs s of
        None \<Rightarrow> Throws (TypeError ''Cannot read property lastModified of undefined'') s
      | Some root \<Rightarrow>
          Settles (eventually (fs_lastModified root path)
                     (\<lambda>m. case testStartTime s of None \<Rightarrow> False | Some t0 \<Rightarrow> m > t0)
                     (''Expected file '' @ path @ '' to be modifed'')) s)"
| "invoke M (NotWritesCall path) s =
     (case fs s of
        None \<Rightarrow> Throws (TypeError ''Cannot read property lastModified of undefined'') s
      | Some root \<Rightarrow>
          Settles (eventually (fs_lastModified root path)
                     (\<lambda>m. case testStartTime s of None \<Rightarrow> False | Some t0 \<Rightarrow> m \<le> t0)
                     (''Expected file '' @ path @ '' not to be modifed'')) s)"
| "invoke M (AssertsCall callback) s =
     (case in_session s (callback (fs s, clock s)) of
        Throws e s' \<Rightarrow> Settles (Rejected e) s'
      | Settles out s' \<Rightarrow> Settles out s')"

text \<open>
  \<open>_enqueue(call)\<close>: without a promise the call is made at once and the promise it returns
  is kept (an exception it throws leaves the method); otherwise the call is attached to the
  promise with \<open>then\<close>.
\<close>

definition enqueue :: "modules \<Rightarrow> call \<Rightarrow> session \<Rightarrow> returned" where
  "enqueue M c s =
     (case promise s of
        None \<Rightarrow>
          (case invoke M c s of
             Throws e s' \<Rightarrow> (Some e, s')
           | Settles out s' \<Rightarrow> (None, s'\<lparr>promise := Some \<lparr> first = out, handlers = [] \<rparr>\<rparr>))
      | Some p \<Rightarrow> (None, s\<lparr>promise := Some (p\<lparr>handlers := handlers p @ [OnFulfilled c]\<rparr>)\<rparr>))"

subsection \<open>Action, assert and utility methods\<close>

definition touchFile :: "modules \<Rightarrow> string \<Rightarrow> session \<Rightarrow> returned" where
  "touchFile M path s = enqueue M (TouchCall path) s"

definition create :: "modules \<Rightarrow> jsval \<Rightarrow> session \<Rightarrow> returned" where
  "create M elem s =
     (let s = load s;
          lv = first_level (levels s)
      in enqueue M (CreateCall elem lv) s)"

definition build :: "modules \<Rightarrow> string \<Rightarrow> jsval \<Rightarrow> session \<Rightarrow> returned" where
  "build M output decl s =
     (let s = s\<lparr>buildDecl := decl\<rparr>;
          s = load s
      in enqueue M (BuildCall decl output) s)"

definition producesFile :: "modules \<Rightarrow> string \<Rightarrow> session \<Rightarrow> returned" where
  "producesFile M path s =
     (let s = s\<lparr>lastFileName := Some path\<rparr>
      in enqueue M (ProducesCall path) s)"

definition newline :: string where
  "newline = [CHR 0x0A]"

text \<open>\<open>Array.prototype.join.call(arguments, sep)\<close> on strings.\<close>

fun join :: "string list \<Rightarrow> string \<Rightarrow> string" where
  "join [] sep = []"
| "join [x] sep = x"
| "join (x # y # ys) sep = x @ sep @ join (y # ys) sep"

text \<open>
  \<open>withContent(content, ...)\<close>: \<open>arguments\<close> is the list of the arguments given; without
  any, \<open>content\<close> is undefined.
\<close>

definition withContent :: "modules \<Rightarrow> string list \<Rightarrow> session \<Rightarrow> returned" where
  "withContent M arguments s =
     (let fileName = lastFileName s;
          content = (case arguments of [] \<Rightarrow> None | c # _ \<Rightarrow> Some c);
          content = (if length arguments > 1 then Some (join arguments newline) else content)
      in enqueue M (ContentCall fileName content) s)"

definition writesToFile :: "modules \<Rightarrow> string \<Rightarrow> session \<Rightarrow> returned" where
  "writesToFile M path s = enqueue M (WritesCall path) s"

definition notWritesToFile :: "modules \<Rightarrow> string \<Rightarrow> session \<Rightarrow> returned" where
  "notWritesToFile M path s = enqueue M (NotWritesCall path) s"


text \<open>
  \<open>notify(done)\<close>: \<open>this._promise.then(done, done)\<close>; the promise it derives is dropped.
  Without a promise, reading \<open>then\<close> throws.
\<close>

definition notify :: "nat \<Rightarrow> session \<Rightarrow> returned" where
  "notify done s =
     (case promise s of
        None \<Rightarrow> (Some (TypeError ''Cannot read property then of undefined''), s)
      | Some p \<Rightarrow> (None, s\<lparr>promise := Some (p\<lparr>handlers := handlers p @ [Notify done]\<rparr>)\<rparr>))"

subsection \<open>Settling the chain\<close>

text \<open>
  What the promise library (\<open>Q\<close>, not part of the sources) does once the author's method
  calls have returned, by the contract of \<open>then\<close>: the handlers run in the order of their
  attachment. A fulfilment handler runs only if the promise it was attached to is fulfilled,
  and the promise it returns (or the exception it throws) settles the derived promise, to
  which the next handler was attached; a rejection passes it by. The completion callback is
  called with the value or with the error of the promise it was attached to. The run
  records which functions were called and which callbacks were notified.
\<close>

record run =
  current :: outcome
  notified :: "(nat \<times> outcome) list"
  invoked :: "call list"
  after :: session

fun settle :: "modules \<Rightarrow> run \<Rightarrow> handler \<Rightarrow> run" where
  "settle M r (OnFulfilled c) =
     (case current r of
        Rejected e \<Rightarrow> r
      | Fulfilled v \<Rightarrow>
          (case invoke M c (after r) of
             Throws e s' \<Rightarrow> r\<lparr>current := Rejected e, invoked := invoked r @ [c], after := s'\<rparr>
           | Settles out s' \<Rightarrow> r\<lparr>current := out, invoked := invoked r @ [c], after := s'\<rparr>))"
| "settle M r (Notify done) = r\<lparr>notified := notified r @ [(done, current r)]\<rparr>"

definition drain_from :: "modules \<Rightarrow> outcome \<Rightarrow> session \<Rightarrow> handler list \<Rightarrow> run" where
  "drain_from M out s hs =
     foldl (settle M) \<lparr> current = out, notified = [], invoked = [], after = s \<rparr> hs"

definition drain :: "modules \<Rightarrow> session \<Rightarrow> run option" where
  "drain M s =
     (case promise s of
        None \<Rightarrow> None
      | Some p \<Rightarrow> Some (drain_from M (first p) s (handlers p)))"

subsection \<open>Method chaining\<close>

text \<open>
  \<open>tech.a(...).b(...)\<close>: each method is called on the session the one before returned;
  an exception ends the expression.
\<close>

fun fluent :: "(session \<Rightarrow> returned) list \<Rightarrow> session \<Rightarrow> returned" where
  "fluent [] s = (None, s)"
| "fluent (m # ms) s = (case m s of (Some e, s') \<Rightarrow> (Some e, s') | (None, s') \<Rightarrow> fluent ms s')"

text \<open>
  The sessions an author reaches with setup calls other than \<open>withLevel\<close> and
  \<open>withLevels\<close>.
\<close>

inductive levels_not_given :: "session \<Rightarrow> bool" where
  fresh: "levels_not_given (TechTest now name path)"
| sourceFiles: "levels_not_given s \<Longrightarrow> levels_not_given (snd (withSourceFiles srcs s))"
| mockedModules: "levels_not_given s \<Longrightarrow> levels_not_given (snd (withMockedModules ms s))"
| mockedResolves:
    "levels_not_given s \<Longrightarrow> levels_not_given (snd (withMockedModulesResolves ps s))"
| givenTechMap: "levels_not_given s \<Longrightarrow> levels_not_given (snd (withTechMap tm s))"

section \<open>The ordering contract, in the words of the specification\<close>

text \<open>
  Operations execute strictly in declaration order, each waiting for the previous one to
  complete; a failure anywhere skips all subsequent operations and is what the completion
  signal receives.
\<close>

fun in_order :: "modules \<Rightarrow> call list \<Rightarrow> run \<Rightarrow> run" where
  "in_order M [] r = r"
| "in_order M (c # cs) r =
     (case current r of
        Rejected e \<Rightarrow> r
      | Fulfilled v \<Rightarrow>
          (case invoke M c (after r) of
             Throws e s' \<Rightarrow>
               r\<lparr>current := Rejected e, invoked := invoked r @ [c], after := s'\<rparr>
           | Settles out s' \<Rightarrow>
               in_order M cs (r\<lparr>current := out, invoked := invoked r @ [c], after := s'\<rparr>)))"

definition completion :: "nat \<Rightarrow> run \<Rightarrow> run" where
  "completion done r = r\<lparr>notified := notified r @ [(done, current r)]\<rparr>"

definition passes :: "session effect \<Rightarrow> bool" where
  "passes eff = (case eff of Settles (Fulfilled v) s' \<Rightarrow> True | _ \<Rightarrow> False)"

section \<open>Sample collaborators\<close>

text \<open>
  Concrete library functions and a concrete technology module, for evaluating the model.
\<close>

text \<open>The last portion of a path, as \<open>PATH.basename\<close> yields it.\<close>

definition basename :: "string \<Rightarrow> string" where
  "basename p =
     (case filter (\<lambda>n. n \<noteq> []) (split_on (CHR ''/'') p) of [] \<Rightarrow> [] | ps \<Rightarrow> last ps)"

text \<open>Dropping a trailing \<open>.js\<close>, as \<open>stripModuleExt\<close> does for a JavaScript module.\<close>

definition stripModuleExt :: "string \<Rightarrow> string" where
  "stripModuleExt p =
     (if length p \<ge> 3 \<and> drop (length p - 3) p = ''.js'' then take (length p - 3) p else p)"

text \<open>
  Modelled from the spec: \<open>write(path, content)\<close> creates parent directories implicitly
  and fails if an ancestor path component is itself a file (\<open>None\<close>).
\<close>

fun put :: "time \<Rightarrow> string \<Rightarrow> FsNode \<Rightarrow> string list \<Rightarrow> FsNode option" where
  "put t c (File c0 m a) [] = Some (File c t t)"
| "put t c (Directory es) [] = None"
| "put t c (File c0 m a) (x # xs) = None"
| "put t c (Directory es) (x # xs) =
     (case put t c
             (case map_of es x of
                Some ch \<Rightarrow> ch
              | None \<Rightarrow> if xs = [] then File [] t t else Directory [])
             xs of
        None \<Rightarrow> None
      | Some ch' \<Rightarrow> Some (Directory (obj_set es x ch')))"

definition fs_write :: "time \<Rightarrow> FsNode \<Rightarrow> string \<Rightarrow> string \<Rightarrow> error + FsNode" where
  "fs_write t root p c =
     (case put t c root (path_parts p) of
        None \<Rightarrow> Inl (Error (''invalid path '' @ p))
      | Some root' \<Rightarrow> Inr root')"

text \<open>
  A technology that takes one tick of the clock and writes \<open>name.ext\<close>: on create for the
  block named in the entity descriptor (throwing at once when there is none), on build
  for the output prefix.
\<close>

definition ext_write :: "string \<Rightarrow> world \<Rightarrow> world effect" where
  "ext_write name w =
     (case w of
        (None, now) \<Rightarrow> Settles (Rejected (Error ''no filesystem'')) (None, Suc now)
      | (Some root, now) \<Rightarrow>
          (case fs_write (Suc now) root (name @ ''.ext'') ''generated'' of
             Inl e \<Rightarrow> Settles (Rejected e) (Some root, Suc now)
           | Inr root' \<Rightarrow> Settles (Fulfilled JUndefined) (Some root', Suc now)))"

definition ext_tech :: tech_module where
  "ext_tech =
     \<lparr> createByDecl = (\<lambda>elem lv w.
          case elem of
            JObject ps \<Rightarrow>
              (case map_of ps ''block'' of
                 Some (JStr b) \<Rightarrow> ext_write b w
               | _ \<Rightarrow> Throws (Error ''block expected'') (fst w, Suc (snd w)))
          | _ \<Rightarrow> Throws (Error ''block expected'') (fst w, Suc (snd w))),
       buildByDecl = (\<lambda>decl lvs output w. ext_write output w) \<rparr>"

definition ext_modules :: modules where
  "ext_modules t = ext_tech"

section \<open>Notions used in the statements\<close>

text \<open>The content stored at a node, if it is a file.\<close>

fun node_content :: "FsNode option \<Rightarrow> string option" where
  "node_content (Some (File c m a)) = Some c"
| "node_content _ = None"

text \<open>
  Two sessions agree on what setup and materialization have stored and on the promise.
\<close>

definition same_setup :: "session \<Rightarrow> session \<Rightarrow> bool" where
  "same_setup s s' \<longleftrightarrow>
     techMap s' = techMap s \<and> levels s' = levels s \<and> ctx s' = ctx s \<and> tech s' = tech s
     \<and> levelPaths s' = levelPaths s \<and> techName s' = techName s
     \<and> modulePath s' = modulePath s \<and> mockedModules s' = mockedModules s
     \<and> mockedResolves s' = mockedResolves s \<and> buildDecl s' = buildDecl s
     \<and> promise s' = promise s"

text \<open>
  The technology registry of a session \<open>s'\<close> materialized from \<open>s\<close>: it is the author's
  tech map of \<open>s\<close> with the entry for the technology under test set, every other entry of
  the author is preserved, every stub level returns it from \<open>getTechs\<close>, and the context
  is given the levels and the module paths of all its entries.
\<close>

definition registry_handed_over :: "session \<Rightarrow> session \<Rightarrow> bool" where
  "registry_handed_over s s' \<longleftrightarrow>
     (\<exists>reg lvs c.
        techMap s' = Some reg \<and> levels s' = Some lvs \<and> ctx s' = Some c
      \<and> reg = obj_set (case techMap s of None \<Rightarrow> [] | Some m \<Rightarrow> m) (techName s) (modulePath s)
      \<and> obj_get reg (techName s) = Some (modulePath s)
      \<and> (\<forall>k v. k \<noteq> techName s
             \<longrightarrow> obj_get (case techMap s of None \<Rightarrow> [] | Some m \<Rightarrow> m) k = Some v
             \<longrightarrow> obj_get reg k = Some v \<and> v \<in> set (opt_tech (ctx_opts c)))
      \<and> (\<forall>lv\<in>set lvs. getTechs lv = reg)
      \<and> ctx_level c = first_level (Some lvs)
      \<and> (opt_level (ctx_opts c) = Some lvs \<or> opt_levels (ctx_opts c) = Some lvs)
      \<and> opt_tech (ctx_opts c) = techPaths (Some reg)
      \<and> modulePath s \<in> set (opt_tech (ctx_opts c)))"

section \<open>Stub level and entry point\<close>

text \<open>
  Claim C8. For every level path and every tech map given to it, a stub level hands the
  base class the project root \<open>/\<close>, whatever the level path is, and \<open>getTechs\<close> returns
  exactly the tech map given to the constructor.
\<close>

theorem StubLevel_root_and_techs:
  "projectRoot (base_opts (StubLevel path tm)) = ''/''
   \<and> base_path (StubLevel path tm) = path
   \<and> getTechs (StubLevel path tm) = tm"
  by (simp add: StubLevel_def getTechs_def Level_constructor_def level.extend_def
        stub_level.fields_def)

theorem StubLevel_root_and_techs_witness:
  "projectRoot (base_opts (StubLevel ''/blocks/desktop'' [(''css'', ''/techs/css.js'')])) = ''/''
   \<and> getTechs (StubLevel ''/blocks/desktop'' [(''css'', ''/techs/css.js'')])
       = [(''css'', ''/techs/css.js'')]"
  using StubLevel_root_and_techs [of "''/blocks/desktop''" "[(''css'', ''/techs/css.js'')]"]
  by simp

text \<open>
  Claim C10. Called with a single argument, \<open>testTech\<close> takes it as the module path and
  derives the technology name from the basename of the path with the module extension
  stripped; called with two arguments (or more), it uses the given name unchanged.
\<close>

theorem testTech_arguments:
  "testTech bn sme now [p] = Some (TechTest now (sme (bn p)) p)
   \<and> testTech bn sme now (n # p # rest) = Some (TechTest now n p)"
  by (simp add: testTech_def)

theorem testTech_arguments_witness:
  "testTech basename stripModuleExt 0 [''/techs/css.js''] = Some (TechTest 0 ''css'' ''/techs/css.js'')
   \<and> testTech basename stripModuleExt 0 [''styles'', ''/techs/css.js'']
       = Some (TechTest 0 ''styles'' ''/techs/css.js'')"
  using testTech_arguments [of basename stripModuleExt 0 "''/techs/css.js''" "''styles''" "[]"]
  by (simp add: basename_def stripModuleExt_def)

section \<open>Setup: mocked modules\<close>

text \<open>
  Claim C3, amended. For every mock table that holds a truthy substitute under one of the
  reserved identifiers \<open>fs\<close>, \<open>q-fs\<close> or \<open>q-io/fs\<close> (every object and every function is
  truthy, whatever its shape), \<open>withMockedModules\<close> throws the configuration error at
  once and leaves the session, and with it the accumulated mock table, unchanged.
\<close>

theorem withMockedModules_reserved:
  assumes "key \<in> {''fs'', ''q-fs'', ''q-io/fs''}"
    and "obj_get modules key = Some v"
    and "truthy v"
  shows "\<exists>msg. withMockedModules modules s = (Some (Error msg), s)"
  using assms by (auto simp: withMockedModules_def prop_truthy_def)

theorem withMockedModules_reserved_witness:
  "''q-fs'' \<in> {''fs'', ''q-fs'', ''q-io/fs''}
   \<and> obj_get [(''net'', JObject []), (''q-fs'', JObject [(''read'', JFunction 1)])] ''q-fs''
       = Some (JObject [(''read'', JFunction 1)])
   \<and> truthy (JObject [(''read'', JFunction 1)])
   \<and> (\<exists>msg. withMockedModules
               [(''net'', JObject []), (''q-fs'', JObject [(''read'', JFunction 1)])]
               (TechTest 0 ''css'' ''/techs/css.js'')
             = (Some (Error msg), TechTest 0 ''css'' ''/techs/css.js''))"
  using withMockedModules_reserved
    [of "''q-fs''" "[(''net'', JObject []), (''q-fs'', JObject [(''read'', JFunction 1)])]"
        "JObject [(''read'', JFunction 1)]" "TechTest 0 ''css'' ''/techs/css.js''"]
  by (simp add: obj_get_def)

text \<open>
  The claim as stated fails for a substitute that is not truthy: a table holding \<open>null\<close>
  under \<open>fs\<close> is accepted and merged into the session's mock table.
\<close>

theorem withMockedModules_null_counterexample:
  "withMockedModules [(''fs'', JNull)] (TechTest 0 ''css'' ''/techs/css.js'')
   = (None, (TechTest 0 ''css'' ''/techs/css.js'')\<lparr>mockedModules := Some [(''fs'', JNull)]\<rparr>)"
  by (simp add: withMockedModules_def prop_truthy_def obj_get_def merge_def copy_into_def
        obj_keys_def TechTest_def)

section \<open>Expected content\<close>

text \<open>
  Claim C5. For all strings \<open>a\<close>, \<open>b\<close>, \<open>c\<close>, \<open>withContent(a, b, c)\<close> enqueues the same
  content check as \<open>withContent(a + "\n" + b + "\n" + c)\<close>: the arguments are joined with
  a newline and nothing is added at the end; the single-argument form and the
  multi-argument form agree for every non-empty argument list.
\<close>

theorem withContent_join:
  "withContent M [a, b, c] s
     = enqueue M (ContentCall (lastFileName s) (Some (a @ newline @ b @ newline @ c))) s
   \<and> withContent M [a @ newline @ b @ newline @ c] s
     = enqueue M (ContentCall (lastFileName s) (Some (a @ newline @ b @ newline @ c))) s
   \<and> (arguments \<noteq> [] \<longrightarrow>
        withContent M arguments s = withContent M [join arguments newline] s)"
proof -
  have multi: "withContent M [a, b, c] s
     = enqueue M (ContentCall (lastFileName s) (Some (a @ newline @ b @ newline @ c))) s"
    by (simp add: withContent_def)
  have single: "withContent M [a @ newline @ b @ newline @ c] s
     = enqueue M (ContentCall (lastFileName s) (Some (a @ newline @ b @ newline @ c))) s"
    by (simp add: withContent_def)
  have agree: "withContent M arguments s = withContent M [join arguments newline] s"
    if "arguments \<noteq> []"
  proof (cases arguments)
    case Nil
    with that show ?thesis by simp
  next
    case (Cons x xs)
    then show ?thesis by (cases xs) (simp_all add: withContent_def)
  qed
  from multi single agree show ?thesis by blast
qed

section \<open>Objects and the virtual filesystem: auxiliary facts\<close>

lemma map_of_obj_set: "map_of (obj_set es x v) y = (if y = x then Some v else map_of es y)"
  by (induction es x v rule: obj_set.induct) auto

lemma obj_get_obj_set: "obj_get (obj_set es x v) y = (if y = x then Some v else obj_get es y)"
  by (simp add: obj_get_def map_of_obj_set)


lemma obj_get_in_techPaths:
  assumes "obj_get m k = Some v"
  shows "v \<in> set (List.map_filter (obj_get m) (obj_keys m))"
proof -
  from assms have "k \<in> set (obj_keys m)"
    by (auto simp: obj_get_def obj_keys_def dest: map_of_SomeD intro: rev_image_eqI)
  with assms
  have "\<exists>x\<in>set (filter (\<lambda>x. obj_get m x \<noteq> None) (obj_keys m)). v = (the \<circ> obj_get m) x"
    by (intro bexI[of _ k]) auto
  then show ?thesis unfolding List.map_filter_def by (simp add: image_iff)
qed

lemma walk_stamp_same:
  "walk root ps = Some (File c m a) \<Longrightarrow> walk (stamp t root ps) ps = Some (File c t t)"
proof (induction t root ps rule: stamp.induct)
  case (4 t es x xs)
  then show ?case by (auto simp: map_of_obj_set split: option.splits)
qed auto

lemma walk_stamp_content:
  "node_content (walk (stamp t root ps) qs) = node_content (walk root qs)"
proof (induction t root ps arbitrary: qs rule: stamp.induct)
  case (1 t c m a)
  then show ?case by (cases qs) auto
next
  case (4 t es x xs)
  show ?case
  proof (cases qs)
    case Nil
    then show ?thesis by (auto split: option.splits)
  next
    case (Cons y ys)
    then show ?thesis using 4 by (auto simp: map_of_obj_set split: option.splits)
  qed
qed auto

lemma fs_read_content:
  "fs_read root q =
     (case node_content (walk root (path_parts q)) of
        Some c \<Rightarrow> Inr c
      | None \<Rightarrow> Inl (NotFoundError q))"
  by (auto simp: fs_read_def split: option.splits FsNode.splits)

lemma fs_read_stamp: "fs_read (stamp t root ps) q = fs_read root q"
  by (simp add: fs_read_content walk_stamp_content)

section \<open>Modification-time checks\<close>

text \<open>
  Claim C4. For a single path and one fixed action start time, the check of
  \<open>writesToFile(path)\<close> (modification time greater than the start time) and the check of
  \<open>notWritesToFile(path)\<close> (modification time at or before the start time) exclude each
  other: when the file exists exactly one of them succeeds, never both and never neither;
  when the path is absent each of them fails with a NotFoundError.
\<close>

theorem writes_notWrites_exclusive:
  assumes "fs s = Some root" and "testStartTime s = Some t0"
  shows "(walk root (path_parts p) = Some (File c m a) \<longrightarrow>
            passes (invoke M (WritesCall p) s) = (t0 < m)
          \<and> passes (invoke M (NotWritesCall p) s) = (m \<le> t0)
          \<and> passes (invoke M (WritesCall p) s) = (\<not> passes (invoke M (NotWritesCall p) s)))
       \<and> (walk root (path_parts p) = None \<longrightarrow>
            invoke M (WritesCall p) s = Settles (Rejected (NotFoundError p)) s
          \<and> invoke M (NotWritesCall p) s = Settles (Rejected (NotFoundError p)) s)"
  using assms by (auto simp: passes_def eventually_def fs_lastModified_def)

theorem writes_notWrites_exclusive_witness:
  "fs ((TechTest 7 ''ext'' ''/techs/ext.js'')
         \<lparr>fs := Some (Directory [(''x.ext'', File ''generated'' 7 7)]),
          testStartTime := Some 7\<rparr>)
     = Some (Directory [(''x.ext'', File ''generated'' 7 7)])
   \<and> testStartTime ((TechTest 7 ''ext'' ''/techs/ext.js'')
         \<lparr>fs := Some (Directory [(''x.ext'', File ''generated'' 7 7)]),
          testStartTime := Some 7\<rparr>) = Some 7
   \<and> walk (Directory [(''x.ext'', File ''generated'' 7 7)]) (path_parts ''x.ext'')
       = Some (File ''generated'' 7 7)
   \<and> \<not> passes (invoke ext_modules (WritesCall ''x.ext'')
         ((TechTest 7 ''ext'' ''/techs/ext.js'')
            \<lparr>fs := Some (Directory [(''x.ext'', File ''generated'' 7 7)]),
             testStartTime := Some 7\<rparr>))
   \<and> passes (invoke ext_modules (NotWritesCall ''x.ext'')
         ((TechTest 7 ''ext'' ''/techs/ext.js'')
            \<lparr>fs := Some (Directory [(''x.ext'', File ''generated'' 7 7)]),
             testStartTime := Some 7\<rparr>))
   \<and> walk (Directory [(''x.ext'', File ''generated'' 7 7)]) (path_parts ''y.ext'') = None
   \<and> invoke ext_modules (WritesCall ''y.ext'')
         ((TechTest 7 ''ext'' ''/techs/ext.js'')
            \<lparr>fs := Some (Directory [(''x.ext'', File ''generated'' 7 7)]),
             testStartTime := Some 7\<rparr>)
       = Settles (Rejected (NotFoundError ''y.ext''))
           ((TechTest 7 ''ext'' ''/techs/ext.js'')
              \<lparr>fs := Some (Directory [(''x.ext'', File ''generated'' 7 7)]),
               testStartTime := Some 7\<rparr>)"
proof -
  let ?root = "Directory [(''x.ext'', File ''generated'' 7 7)]"
  let ?s = "(TechTest 7 ''ext'' ''/techs/ext.js'')\<lparr>fs := Some ?root, testStartTime := Some 7\<rparr>"
  have f: "fs ?s = Some ?root" and t: "testStartTime ?s = Some 7"
    by simp_all
  have w: "walk ?root (path_parts ''x.ext'') = Some (File ''generated'' 7 7)"
    by (simp add: path_parts_def)
  have n: "walk ?root (path_parts ''y.ext'') = None"
    by (simp add: path_parts_def)
  from writes_notWrites_exclusive [OF f t, of "''x.ext''" "''generated''" 7 7 ext_modules]
    writes_notWrites_exclusive [OF f t, of "''y.ext''" "''generated''" 7 7 ext_modules]
    f t w n
  show ?thesis by simp
qed

section \<open>Materialization: auxiliary facts\<close>

lemma in_session_frame:
  assumes "in_session s eff = Throws e s' \<or> in_session s eff = Settles out s'"
  shows "same_setup s s'"
  using assms by (auto simp: in_session_def same_setup_def split: effect.splits prod.splits)

lemma same_setup_trans: "same_setup a b \<Longrightarrow> same_setup b c \<Longrightarrow> same_setup a c"
  by (simp add: same_setup_def)

lemma invoke_frame:
  assumes h: "invoke M c s = Throws e s' \<or> invoke M c s = Settles out s'"
  shows "same_setup s s'"
proof (cases c)
  case (CreateCall elem lv)
  have a: "same_setup s (s\<lparr>testStartTime := Some (clock s)\<rparr>)"
    by (simp add: same_setup_def)
  show ?thesis
  proof (cases "tech s")
    case None
    with h CreateCall show ?thesis by (auto simp: Let_def same_setup_def)
  next
    case (Some t)
    with h CreateCall have "same_setup (s\<lparr>testStartTime := Some (clock s)\<rparr>) s'"
      by (intro in_session_frame) (auto simp: Let_def)
    with a show ?thesis by (rule same_setup_trans)
  qed
next
  case (BuildCall d outp)
  have a: "same_setup s (s\<lparr>testStartTime := Some (clock s)\<rparr>)"
    by (simp add: same_setup_def)
  show ?thesis
  proof (cases "tech s")
    case None
    with h BuildCall show ?thesis by (auto simp: Let_def same_setup_def)
  next
    case (Some t)
    with h BuildCall have "same_setup (s\<lparr>testStartTime := Some (clock s)\<rparr>) s'"
      by (intro in_session_frame) (auto simp: Let_def)
    with a show ?thesis by (rule same_setup_trans)
  qed
next
  case (AssertsCall cb)
  with h obtain e0 o0 where
    "in_session s (cb (fs s, clock s)) = Throws e0 s'
     \<or> in_session s (cb (fs s, clock s)) = Settles o0 s'"
    by (cases "in_session s (cb (fs s, clock s))") auto
  then show ?thesis by (rule in_session_frame)
qed (use h in \<open>auto simp: same_setup_def split: option.splits sum.splits\<close>)

lemma enqueue_frame:
  assumes "enqueue M c s = (r, s')"
  shows "techMap s' = techMap s \<and> levels s' = levels s \<and> ctx s' = ctx s \<and> tech s' = tech s
   \<and> levelPaths s' = levelPaths s \<and> techName s' = techName s \<and> modulePath s' = modulePath s
   \<and> mockedModules s' = mockedModules s \<and> mockedResolves s' = mockedResolves s
   \<and> buildDecl s' = buildDecl s"
proof (cases "promise s")
  case None
  show ?thesis
  proof (cases "invoke M c s")
    case (Throws e s1)
    with None assms have "s' = s1" by (simp add: enqueue_def)
    with Throws invoke_frame[of M c s e s' undefined] show ?thesis
      by (simp add: same_setup_def)
  next
    case (Settles out s1)
    with None assms have s': "s' = s1\<lparr>promise := Some \<lparr> first = out, handlers = [] \<rparr>\<rparr>"
      by (simp add: enqueue_def)
    from Settles invoke_frame[of M c s undefined s1 out] have "same_setup s s1" by simp
    with s' show ?thesis by (simp add: same_setup_def)
  qed
next
  case (Some p)
  with assms show ?thesis by (auto simp: enqueue_def)
qed

lemma load_fields:
  "techMap (load s)
     = Some (obj_set (case techMap s of None \<Rightarrow> [] | Some m \<Rightarrow> m) (techName s) (modulePath s))"
  "levels (load s)
     = Some (map (\<lambda>path. StubLevel path
                   (obj_set (case techMap s of None \<Rightarrow> [] | Some m \<Rightarrow> m) (techName s)
                      (modulePath s)))
              (case levelPaths s of None \<Rightarrow> [''/''] | Some ps \<Rightarrow> ps))"
  "levelPaths (load s) = Some (case levelPaths s of None \<Rightarrow> [''/''] | Some ps \<Rightarrow> ps)"
  "techName (load s) = techName s"
  "modulePath (load s) = modulePath s"
  "mockedModules (load s) = mockedModules s"
  "mockedResolves (load s) = mockedResolves s"
  "buildDecl (load s) = buildDecl s"
  "fs (load s)
     = (case fs s of
          Some root \<Rightarrow> Some root
        | None \<Rightarrow> Some (QFSMock (clock s) (case sources s of None \<Rightarrow> [] | Some srcs \<Rightarrow> srcs)))"
  "promise (load s) = promise s"
  by (simp_all add: load_def loadLevels_def loadContext_def loadTech_def Let_def)



lemma load_ctx:
  "ctx (load s) = Some (Context_constructor
      \<lparr> mocks = getMocks s, resolves = mockedResolves s,
        ignoreMocks = [''winston'', ''mime'', ''node.extend'', ''uglify-js'', ''insight''] \<rparr>
      (first_level (levels (load s)))
      \<lparr> opt_root = Some ''/'', opt_level = levels (load s), opt_levels = None,
        opt_declaration = Some (buildDecl s), opt_tech = techPaths (techMap (load s)) \<rparr>)"
  by (simp add: load_def loadLevels_def loadContext_def loadTech_def Let_def getMocks_def)

lemma load_variant_fields:
  assumes "tech s = None"
  shows "techMap (load_variant s) = techMap (load s)"
    and "levels (load_variant s) = levels (load s)"
    and "ctx (load_variant s) = Some (Context_constructor
      \<lparr> mocks = [(''q-io/fs'', SessionFs), (''fs'', SessionFsFacade)], resolves = None,
        ignoreMocks = [''winston'', ''mime''] \<rparr>
      (first_level (levels (load s)))
      \<lparr> opt_root = None, opt_level = None, opt_levels = levels (load s),
        opt_declaration = None, opt_tech = techPaths (techMap (load s)) \<rparr>)"
  using assms
  by (simp_all add: load_variant_def load_def loadLevels_def loadContext_def
        loadContext_variant_def loadTech_def Let_def)

lemma create_fields:
  "techMap (snd (create M e s)) = techMap (load s)"
  "levels (snd (create M e s)) = levels (load s)"
  "ctx (snd (create M e s)) = ctx (load s)"
  "tech (snd (create M e s)) = tech (load s)"
  "levelPaths (snd (create M e s)) = levelPaths (load s)"
  "techName (snd (create M e s)) = techName s"
  "modulePath (snd (create M e s)) = modulePath s"
  "mockedModules (snd (create M e s)) = mockedModules s"
  "mockedResolves (snd (create M e s)) = mockedResolves s"
  "buildDecl (snd (create M e s)) = buildDecl s"
  using enqueue_frame[of M "CreateCall e (first_level (levels (load s)))" "load s"]
  by (simp_all add: create_def Let_def prod_eq_iff load_fields)

lemma build_fields:
  "techMap (snd (build M outp d s)) = techMap (load (s\<lparr>buildDecl := d\<rparr>))"
  "levels (snd (build M outp d s)) = levels (load (s\<lparr>buildDecl := d\<rparr>))"
  "ctx (snd (build M outp d s)) = ctx (load (s\<lparr>buildDecl := d\<rparr>))"
  using enqueue_frame[of M "BuildCall d outp" "load (s\<lparr>buildDecl := d\<rparr>)"]
  by (simp_all add: build_def Let_def prod_eq_iff)



lemma registry_core:
  assumes tm: "techMap s' = techMap (load s0)" and lv: "levels s' = levels (load s0)"
    and c: "ctx s' = Some c" "ctx_level c = first_level (levels (load s0))"
       "opt_level (ctx_opts c) = levels (load s0) \<or> opt_levels (ctx_opts c) = levels (load s0)"
       "opt_tech (ctx_opts c) = techPaths (techMap (load s0))"
    and same: "techMap s0 = techMap s" "techName s0 = techName s" "modulePath s0 = modulePath s"
  shows "registry_handed_over s s'"
proof -
  let ?author = "case techMap s of None \<Rightarrow> [] | Some m \<Rightarrow> m"
  let ?reg = "obj_set ?author (techName s) (modulePath s)"
  let ?lvs = "map (\<lambda>path. StubLevel path ?reg)
                (case levelPaths s0 of None \<Rightarrow> [''/''] | Some ps \<Rightarrow> ps)"
  have 1: "techMap s' = Some ?reg" using tm same by (simp add: load_fields)
  have 2: "levels s' = Some ?lvs" using lv same by (simp add: load_fields)
  have 3: "obj_get ?reg (techName s) = Some (modulePath s)" by (simp add: obj_get_obj_set)
  have tp: "opt_tech (ctx_opts c) = techPaths (Some ?reg)"
    using c(4) same by (simp add: load_fields)
  have 4: "obj_get ?reg k = Some v \<and> v \<in> set (opt_tech (ctx_opts c))"
    if "k \<noteq> techName s" "obj_get ?author k = Some v" for k v
  proof -
    from that have "obj_get ?reg k = Some v" by (simp add: obj_get_obj_set)
    then show ?thesis using tp by (simp add: techPaths_def obj_get_in_techPaths)
  qed
  have 5: "\<forall>lv\<in>set ?lvs. getTechs lv = ?reg"
    by (auto simp: getTechs_def StubLevel_def level.extend_def stub_level.fields_def
          Level_constructor_def)
  have 6: "ctx_level c = first_level (Some ?lvs)" using c(2) same by (simp add: load_fields)
  have 7: "opt_level (ctx_opts c) = Some ?lvs \<or> opt_levels (ctx_opts c) = Some ?lvs"
    using c(3) same by (simp add: load_fields)
  have 8: "modulePath s \<in> set (opt_tech (ctx_opts c))"
    using 3 tp by (simp add: techPaths_def obj_get_in_techPaths)
  show ?thesis unfolding registry_handed_over_def
    using 1 2 c(1) 3 4 5 6 7 tp 8 by blast
qed

lemma levels_not_given_inv: "levels_not_given s \<Longrightarrow> levelPaths s = None \<and> tech s = None"
  by (induction rule: levels_not_given.induct)
     (auto simp: TechTest_def withSourceFiles_def withMockedModules_def
        withMockedModulesResolves_def withTechMap_def)

section \<open>Technology registry and levels\<close>

text \<open>
  Claim C7. After materialization (by \<open>_load\<close> itself, by a \<open>create\<close> or \<open>build\<close> call, or
  by the guarded \<open>_load\<close> of the second copy on a session without a technology instance),
  the registry of the session maps the name of the technology under test to the module path
  under test; it is the author's tech map with that entry set, not a replacement of it:
  every entry of the author for another name is preserved in the registry that every stub
  level returns, and its module path is among those handed to the context.
\<close>

theorem registry_after_load:
  assumes "s' = load s \<or> s' = snd (create M e s) \<or> s' = snd (build M outp d s)
           \<or> (tech s = None \<and> s' = load_variant s)"
  shows "registry_handed_over s s'"
  using assms
proof (elim disjE conjE)
  assume l: "s' = load s"
  show ?thesis
    by (rule registry_core[where ?s0.0 = s])
       (simp_all add: l load_ctx Context_constructor_def, simp_all)
next
  assume c: "s' = snd (create M e s)"
  show ?thesis
    by (rule registry_core[where ?s0.0 = s])
       (simp_all add: c create_fields load_ctx Context_constructor_def, simp_all)
next
  assume b: "s' = snd (build M outp d s)"
  show ?thesis
    by (rule registry_core[where ?s0.0 = "s\<lparr>buildDecl := d\<rparr>"])
       (simp_all add: b build_fields load_ctx Context_constructor_def, simp_all)
next
  assume v: "tech s = None" "s' = load_variant s"
  show ?thesis
    by (rule registry_core[where ?s0.0 = s])
       (simp_all add: v load_variant_fields Context_constructor_def, simp_all)
qed

theorem registry_after_load_witness:
  "registry_handed_over
     (snd (withTechMap [(''base'', ''/techs/base.js'')] (TechTest 0 ''css'' ''/techs/css.js'')))
     (snd (create ext_modules (JObject [(''block'', JStr ''x'')])
        (snd (withTechMap [(''base'', ''/techs/base.js'')] (TechTest 0 ''css'' ''/techs/css.js'')))))
   \<and> techMap (snd (create ext_modules (JObject [(''block'', JStr ''x'')])
        (snd (withTechMap [(''base'', ''/techs/base.js'')] (TechTest 0 ''css'' ''/techs/css.js'')))))
     = Some [(''base'', ''/techs/base.js''), (''css'', ''/techs/css.js'')]"
proof -
  let ?s = "snd (withTechMap [(''base'', ''/techs/base.js'')] (TechTest 0 ''css'' ''/techs/css.js''))"
  let ?s' = "snd (create ext_modules (JObject [(''block'', JStr ''x'')]) ?s)"
  have h: "?s' = load ?s \<or> ?s' = snd (create ext_modules (JObject [(''block'', JStr ''x'')]) ?s)
           \<or> ?s' = snd (build ext_modules ''/out'' JNull ?s)
           \<or> (tech ?s = None \<and> ?s' = load_variant ?s)"
    by simp
  have t: "techMap ?s' = Some [(''base'', ''/techs/base.js''), (''css'', ''/techs/css.js'')]"
    by (simp add: create_fields load_fields withTechMap_def TechTest_def)
  from registry_after_load [OF h] t show ?thesis by simp
qed

text \<open>
  Claim C9. If neither \<open>withLevel\<close> nor \<open>withLevels\<close> is called before the first action,
  materialization constructs exactly one stub level, whose path is the root \<open>/\<close>.
\<close>

theorem default_root_level:
  assumes "levels_not_given s"
  shows "\<exists>reg. levels (load s) = Some [StubLevel ''/'' reg]
      \<and> levels (snd (create M e s)) = Some [StubLevel ''/'' reg]
      \<and> levels (snd (build M outp d s)) = Some [StubLevel ''/'' reg]
      \<and> levels (load_variant s) = Some [StubLevel ''/'' reg]
      \<and> base_path (StubLevel ''/'' reg) = ''/''"
  using levels_not_given_inv[OF assms]
  by (simp add: create_fields build_fields load_variant_fields load_fields StubLevel_def
        level.extend_def stub_level.fields_def Level_constructor_def)

theorem default_root_level_witness:
  "levels_not_given
     (snd (withSourceFiles [(''menu'', SrcDir [(''menu.css'', SrcFile ''.a{}'')])]
        (TechTest 0 ''css'' ''/techs/css.js'')))
   \<and> levels (snd (create ext_modules (JObject [(''block'', JStr ''menu'')])
        (snd (withSourceFiles [(''menu'', SrcDir [(''menu.css'', SrcFile ''.a{}'')])]
           (TechTest 0 ''css'' ''/techs/css.js'')))))
     = Some [StubLevel ''/'' [(''css'', ''/techs/css.js'')]]"
proof -
  let ?s = "snd (withSourceFiles [(''menu'', SrcDir [(''menu.css'', SrcFile ''.a{}'')])]
              (TechTest 0 ''css'' ''/techs/css.js''))"
  have h: "levels_not_given ?s"
    by (rule levels_not_given.sourceFiles) (rule levels_not_given.fresh)
  have l: "levels (load ?s) = Some [StubLevel ''/'' [(''css'', ''/techs/css.js'')]]"
    by (simp add: load_fields withSourceFiles_def TechTest_def)
  from default_root_level [OF h, of ext_modules "JObject [(''block'', JStr ''menu'')]" "''/out''" JNull] l h
  show ?thesis by auto
qed

section \<open>Repeated actions\<close>




section \<open>The chain: auxiliary facts\<close>

lemma settle_rejected:
  "current r = Rejected e \<Longrightarrow> foldl (settle M) r (map OnFulfilled cs) = r"
  by (induction cs) auto

lemma settle_calls: "foldl (settle M) r (map OnFulfilled cs) = in_order M cs r"
proof (induction cs arbitrary: r)
  case Nil
  then show ?case by simp
next
  case (Cons c cs)
  show ?case
  proof (cases "current r")
    case (Rejected e)
    then show ?thesis by (simp add: settle_rejected)
  next
    case (Fulfilled v)
    show ?thesis
    proof (cases "invoke M c (after r)")
      case (Throws e s')
      with Fulfilled show ?thesis by (simp add: settle_rejected)
    next
      case (Settles out s')
      with Fulfilled Cons show ?thesis by simp
    qed
  qed
qed

lemma drain_from_append:
  "drain_from M out s (hs @ hs') = foldl (settle M) (drain_from M out s hs) hs'"
  by (simp add: drain_from_def)

lemma enqueue_pending:
  "promise s = Some p \<Longrightarrow>
   enqueue M c s = (None, s\<lparr>promise := Some (p\<lparr>handlers := handlers p @ [OnFulfilled c]\<rparr>)\<rparr>)"
  by (simp add: enqueue_def)

lemma fluent_enqueue:
  "promise s = Some p \<Longrightarrow>
   fluent (map (enqueue M) cs @ ms) s
     = fluent ms (s\<lparr>promise := Some (p\<lparr>handlers := handlers p @ map OnFulfilled cs\<rparr>)\<rparr>)"
proof (induction cs arbitrary: s p)
  case Nil
  then have "s\<lparr>promise := Some p\<rparr> = s" by (cases s) simp
  then show ?case by simp
next
  case (Cons c cs)
  let ?p = "p\<lparr>handlers := handlers p @ [OnFulfilled c]\<rparr>"
  let ?s = "s\<lparr>promise := Some ?p\<rparr>"
  have "fluent (map (enqueue M) (c # cs) @ ms) s = fluent (map (enqueue M) cs @ ms) ?s"
    using Cons.prems by (simp add: enqueue_pending)
  also have "\<dots> = fluent ms
      (?s\<lparr>promise := Some (?p\<lparr>handlers := handlers ?p @ map OnFulfilled cs\<rparr>)\<rparr>)"
    by (rule Cons.IH) simp
  finally show ?case by simp
qed

lemma in_order_prefix:
  "\<exists>k\<le>length cs. invoked (in_order M cs r) = invoked r @ take k cs
     \<and> notified (in_order M cs r) = notified r
     \<and> (k < length cs \<longrightarrow> (\<exists>e. current (in_order M cs r) = Rejected e))"
proof (induction cs arbitrary: r)
  case Nil
  then show ?case by simp
next
  case (Cons c cs)
  show ?case
  proof (cases "current r")
    case (Rejected e)
    then show ?thesis by (intro exI[of _ 0]) simp
  next
    case (Fulfilled v)
    show ?thesis
    proof (cases "invoke M c (after r)")
      case (Throws e s')
      with Fulfilled show ?thesis by (intro exI[of _ 1]) simp
    next
      case (Settles out s')
      let ?final = "r\<lparr>current := out, invoked := invoked r @ [c], after := s'\<rparr>"
      from Cons[of ?final] obtain k where k: "k \<le> length cs"
        "invoked (in_order M cs ?final) = invoked ?final @ take k cs"
        "notified (in_order M cs ?final) = notified ?final"
        "k < length cs \<longrightarrow> (\<exists>e. current (in_order M cs ?final) = Rejected e)" by blast
      with Fulfilled Settles show ?thesis by (intro exI[of _ "Suc k"]) simp
    qed
  qed
qed

lemma created:
  "create ext_modules (JObject [(''block'', JStr ''x'')]) (TechTest 100 ''ext'' ''/techs/ext.js'')
   = (None, (load (TechTest 100 ''ext'' ''/techs/ext.js''))
        \<lparr>fs := Some (Directory [(''x.ext'', File ''generated'' 101 101)]),
         testStartTime := Some 100, clock := 101,
         promise := Some \<lparr>first = Fulfilled JUndefined, handlers = []\<rparr>\<rparr>)"
  by (simp add: create_def enqueue_def load_fields Let_def TechTest_def load_def loadLevels_def
        loadContext_def loadTech_def in_session_def ext_modules_def ext_tech_def ext_write_def
        fs_write_def path_parts_def QFSMock_def)

section \<open>The deferred chain\<close>

text \<open>
  Claim C1, amended. The first chain item of a session is called by its method at call time:
  the promise it returns becomes the chain, and an exception it throws there leaves the
  method instead. For every session that holds a promise, the operations enqueued afterwards
  execute strictly in the order their methods were called, each starting only after the
  previous one completed; once an item fails every later item is skipped; and \<open>notify\<close>
  called on such a session has its completion callback invoked exactly once, with the
  fulfilment value of the last item or with the first error. This is for chain items that
  settle: an operation that never completes hangs the chain, and the callback is then not
  invoked.
\<close>

theorem chain_in_order:
  assumes "promise s = Some p"
  shows "(\<exists>s' r k.
            fluent (map (enqueue M) cs @ [notify d]) s = (None, s')
          \<and> s' = s\<lparr>promise :=
                     Some (p\<lparr>handlers := handlers p @ map OnFulfilled cs @ [Notify d]\<rparr>)\<rparr>
          \<and> drain M s' = Some r
          \<and> r = completion d (in_order M cs (drain_from M (first p) s' (handlers p)))
          \<and> k \<le> length cs
          \<and> invoked r = invoked (drain_from M (first p) s' (handlers p)) @ take k cs
          \<and> (k < length cs \<longrightarrow> (\<exists>e. current r = Rejected e))
          \<and> notified r = notified (drain_from M (first p) s' (handlers p)) @ [(d, current r)])
       \<and> (promise s0 = None \<and> invoke M c0 s0 = Settles out s1 \<longrightarrow>
            enqueue M c0 s0 = (None, s1\<lparr>promise := Some \<lparr>first = out, handlers = []\<rparr>\<rparr>))
       \<and> (promise s0 = None \<and> invoke M c0 s0 = Throws e s1 \<longrightarrow>
            enqueue M c0 s0 = (Some e, s1))"
proof -
  let ?s' = "s\<lparr>promise :=
               Some (p\<lparr>handlers := handlers p @ map OnFulfilled cs @ [Notify d]\<rparr>)\<rparr>"
  let ?before = "drain_from M (first p) ?s' (handlers p)"
  let ?final = "completion d (in_order M cs ?before)"
  have 1: "fluent (map (enqueue M) cs @ [notify d]) s = (None, ?s')"
    using assms by (simp add: fluent_enqueue notify_def)
  have "drain M ?s'
      = Some (drain_from M (first p) ?s' (handlers p @ map OnFulfilled cs @ [Notify d]))"
    by (simp add: drain_def)
  also have "drain_from M (first p) ?s' (handlers p @ map OnFulfilled cs @ [Notify d]) = ?final"
    by (simp add: drain_from_append settle_calls completion_def flip: append_assoc)
  finally have 2: "drain M ?s' = Some ?final" .
  from in_order_prefix[of cs M ?before] obtain k where k: "k \<le> length cs"
    "invoked (in_order M cs ?before) = invoked ?before @ take k cs"
    "notified (in_order M cs ?before) = notified ?before"
    "k < length cs \<longrightarrow> (\<exists>e. current (in_order M cs ?before) = Rejected e)" by blast
  have 3: "invoked ?final = invoked ?before @ take k cs"
    by (simp add: completion_def k(2))
  have 4: "k < length cs \<longrightarrow> (\<exists>e. current ?final = Rejected e)"
    using k(4) by (simp add: completion_def)
  have 5: "notified ?final = notified ?before @ [(d, current ?final)]"
    by (simp add: completion_def k(3))
  have chained: "\<exists>s' r k.
            fluent (map (enqueue M) cs @ [notify d]) s = (None, s')
          \<and> s' = ?s'
          \<and> drain M s' = Some r
          \<and> r = completion d (in_order M cs (drain_from M (first p) s' (handlers p)))
          \<and> k \<le> length cs
          \<and> invoked r = invoked (drain_from M (first p) s' (handlers p)) @ take k cs
          \<and> (k < length cs \<longrightarrow> (\<exists>e. current r = Rejected e))
          \<and> notified r = notified (drain_from M (first p) s' (handlers p)) @ [(d, current r)]"
    using 1 2 k(1) 3 4 5 by blast
  have started: "promise s0 = None \<and> invoke M c0 s0 = Settles out s1 \<longrightarrow>
            enqueue M c0 s0 = (None, s1\<lparr>promise := Some \<lparr>first = out, handlers = []\<rparr>\<rparr>)"
    by (simp add: enqueue_def)
  have thrown: "promise s0 = None \<and> invoke M c0 s0 = Throws e s1 \<longrightarrow>
            enqueue M c0 s0 = (Some e, s1)"
    by (simp add: enqueue_def)
  from chained started thrown show ?thesis by blast
qed

theorem chain_in_order_witness:
  "promise (snd (create ext_modules (JObject [(''block'', JStr ''x'')])
             (TechTest 100 ''ext'' ''/techs/ext.js'')))
     = Some \<lparr>first = Fulfilled JUndefined, handlers = []\<rparr>
   \<and> (\<exists>s' r.
         fluent (map (enqueue ext_modules)
                   [ProducesCall ''x.ext'', NotWritesCall ''x.ext'', TouchCall ''x.ext'']
                 @ [notify 0])
           (snd (create ext_modules (JObject [(''block'', JStr ''x'')])
              (TechTest 100 ''ext'' ''/techs/ext.js''))) = (None, s')
       \<and> drain ext_modules s' = Some r
       \<and> invoked r = [ProducesCall ''x.ext'', NotWritesCall ''x.ext'']
       \<and> notified r
           = [(0, Rejected (AssertionError ''Expected file x.ext not to be modifed''))])"
proof -
  let ?S = "snd (create ext_modules (JObject [(''block'', JStr ''x'')])
              (TechTest 100 ''ext'' ''/techs/ext.js''))"
  let ?P = "\<lparr>first = Fulfilled JUndefined, handlers = []\<rparr>"
  let ?cs = "[ProducesCall ''x.ext'', NotWritesCall ''x.ext'', TouchCall ''x.ext'']"
  have h: "promise ?S = Some ?P"
    by (simp add: created)
  from chain_in_order [OF h, of ext_modules ?cs 0]
  obtain s' r where a: "fluent (map (enqueue ext_modules) ?cs @ [notify 0]) ?S = (None, s')"
    and b: "s' = ?S\<lparr>promise :=
        Some (?P\<lparr>handlers := handlers ?P @ map OnFulfilled ?cs @ [Notify 0]\<rparr>)\<rparr>"
    and c: "drain ext_modules s' = Some r"
    and d: "r = completion 0 (in_order ext_modules ?cs
               (drain_from ext_modules (first ?P) s' (handlers ?P)))"
    by blast
  have i: "invoked r = [ProducesCall ''x.ext'', NotWritesCall ''x.ext'']"
    unfolding d b
    by (simp add: created completion_def drain_from_def eventually_def fs_exists_def
          fs_lastModified_def path_parts_def)
  have n: "notified r = [(0, Rejected (AssertionError ''Expected file x.ext not to be modifed''))]"
    unfolding d b
    by (simp add: created completion_def drain_from_def eventually_def fs_exists_def
          fs_lastModified_def path_parts_def)
  from h a c i n show ?thesis by blast
qed

text \<open>
  The claim as stated fails for a session without any chain item: \<open>notify\<close> throws, and
  no completion callback is ever invoked.
\<close>

theorem notify_empty_chain_counterexample:
  "notify 0 (TechTest 100 ''ext'' ''/techs/ext.js'')
     = (Some (TypeError ''Cannot read property then of undefined''),
        TechTest 100 ''ext'' ''/techs/ext.js'')
   \<and> drain ext_modules (snd (notify 0 (TechTest 100 ''ext'' ''/techs/ext.js''))) = None"
  by (simp add: notify_def TechTest_def drain_def)

text \<open>
  Claim C6, amended. On a session that holds a promise, \<open>touchFile(path)\<close> is deferred:
  its function is attached to the chain and not called at call time, so it runs only after
  every item enqueued before it has completed (and only if none of them failed). When the
  item executes on a file, it sets the modification time of \<open>path\<close> to the time of the
  clock and alters no content, neither at \<open>path\<close> nor anywhere else.
\<close>

theorem touchFile_deferred:
  assumes "promise s = Some p"
    and "fs s1 = Some root"
    and "walk root (path_parts path) = Some (File c m a)"
  shows "touchFile M path s
           = (None, s\<lparr>promise :=
                        Some (p\<lparr>handlers := handlers p @ [OnFulfilled (TouchCall path)]\<rparr>)\<rparr>)
       \<and> drain_from M out s2 (hs @ [OnFulfilled (TouchCall path)])
           = in_order M [TouchCall path] (drain_from M out s2 hs)
       \<and> invoke M (TouchCall path) s1
           = Settles (Fulfilled JUndefined)
               (s1\<lparr>fs := Some (stream_close (clock s1) root (path_parts path))\<rparr>)
       \<and> fs_lastModified (stream_close (clock s1) root (path_parts path)) path = Inr (clock s1)
       \<and> fs_read (stream_close (clock s1) root (path_parts path)) path = Inr c
       \<and> (\<forall>q. fs_read (stream_close (clock s1) root (path_parts path)) q = fs_read root q)"
proof -
  let ?root' = "stream_close (clock s1) root (path_parts path)"
  have w: "walk ?root' (path_parts path) = Some (File c (clock s1) (clock s1))"
    using assms(3) by (simp add: stream_close_def walk_stamp_same)
  have 0: "touchFile M path s
           = (None, s\<lparr>promise :=
                        Some (p\<lparr>handlers := handlers p @ [OnFulfilled (TouchCall path)]\<rparr>)\<rparr>)"
    using assms(1) by (simp add: touchFile_def enqueue_pending)
  have 1: "drain_from M out s2 (hs @ [OnFulfilled (TouchCall path)])
           = in_order M [TouchCall path] (drain_from M out s2 hs)"
    using settle_calls[of M "drain_from M out s2 hs" "[TouchCall path]"]
    by (simp add: drain_from_append)
  have 2: "invoke M (TouchCall path) s1
           = Settles (Fulfilled JUndefined) (s1\<lparr>fs := Some ?root'\<rparr>)"
    using assms(2,3) by (simp add: fs_open_def)
  have 3: "fs_lastModified ?root' path = Inr (clock s1)"
    using w by (simp add: fs_lastModified_def)
  have 4: "fs_read ?root' path = Inr c"
    using w by (simp add: fs_read_def)
  have 5: "\<forall>q. fs_read ?root' q = fs_read root q"
    by (simp add: stream_close_def fs_read_stamp)
  from 0 1 2 3 4 5 show ?thesis by blast
qed

theorem touchFile_deferred_witness:
  "promise (snd (create ext_modules (JObject [(''block'', JStr ''x'')])
             (TechTest 100 ''ext'' ''/techs/ext.js'')))
     = Some \<lparr>first = Fulfilled JUndefined, handlers = []\<rparr>
   \<and> fs ((snd (create ext_modules (JObject [(''block'', JStr ''x'')])
             (TechTest 100 ''ext'' ''/techs/ext.js'')))\<lparr>clock := 105\<rparr>)
     = Some (Directory [(''x.ext'', File ''generated'' 101 101)])
   \<and> walk (Directory [(''x.ext'', File ''generated'' 101 101)]) (path_parts ''x.ext'')
     = Some (File ''generated'' 101 101)
   \<and> fst (touchFile ext_modules ''x.ext''
        (snd (create ext_modules (JObject [(''block'', JStr ''x'')])
           (TechTest 100 ''ext'' ''/techs/ext.js'')))) = None
   \<and> fs (snd (touchFile ext_modules ''x.ext''
        (snd (create ext_modules (JObject [(''block'', JStr ''x'')])
           (TechTest 100 ''ext'' ''/techs/ext.js'')))))
     = Some (Directory [(''x.ext'', File ''generated'' 101 101)])
   \<and> fs_lastModified
        (stream_close 105 (Directory [(''x.ext'', File ''generated'' 101 101)])
           (path_parts ''x.ext'')) ''x.ext'' = Inr 105
   \<and> fs_read
        (stream_close 105 (Directory [(''x.ext'', File ''generated'' 101 101)])
           (path_parts ''x.ext'')) ''x.ext'' = Inr ''generated''"
proof -
  let ?S = "snd (create ext_modules (JObject [(''block'', JStr ''x'')])
              (TechTest 100 ''ext'' ''/techs/ext.js''))"
  let ?P = "\<lparr>first = Fulfilled JUndefined, handlers = []\<rparr>"
  let ?root = "Directory [(''x.ext'', File ''generated'' 101 101)]"
  have h: "promise ?S = Some ?P"
    by (simp add: created)
  have f: "fs (?S\<lparr>clock := 105\<rparr>) = Some ?root"
    by (simp add: created)
  have w: "walk ?root (path_parts ''x.ext'') = Some (File ''generated'' 101 101)"
    by (simp add: path_parts_def)
  have c: "clock (?S\<lparr>clock := 105\<rparr>) = 105"
    by simp
  have g: "fs ?S = Some ?root"
    by (simp add: created)
  note T = touchFile_deferred [OF h f w, of ext_modules "Fulfilled JUndefined" ?S "[]"]
  from T have t0: "touchFile ext_modules ''x.ext'' ?S
      = (None, ?S\<lparr>promise :=
                   Some (?P\<lparr>handlers := handlers ?P @ [OnFulfilled (TouchCall ''x.ext'')]\<rparr>)\<rparr>)"
    by blast
  from T have t3: "fs_lastModified
      (stream_close (clock (?S\<lparr>clock := 105\<rparr>)) ?root (path_parts ''x.ext'')) ''x.ext''
      = Inr (clock (?S\<lparr>clock := 105\<rparr>))"
    by blast
  from T have t4: "fs_read
      (stream_close (clock (?S\<lparr>clock := 105\<rparr>)) ?root (path_parts ''x.ext'')) ''x.ext''
      = Inr ''generated''"
    by blast
  have r0: "fst (touchFile ext_modules ''x.ext'' ?S) = None"
    by (simp add: t0)
  have r1: "fs (snd (touchFile ext_modules ''x.ext'' ?S)) = Some ?root"
    by (simp add: t0 g)
  from h f w r0 r1 t3 t4 c show ?thesis by simp
qed

text \<open>
  The claim as stated fails for a session without a promise: \<open>_enqueue\<close> calls the
  function of \<open>touchFile\<close> at call time instead of attaching it. On a fresh session the
  call throws, and nothing is enqueued.
\<close>

theorem touchFile_at_call_time_counterexample:
  "touchFile ext_modules ''x.ext'' (TechTest 100 ''ext'' ''/techs/ext.js'')
     = (Some (TypeError ''Cannot read property open of undefined''),
        TechTest 100 ''ext'' ''/techs/ext.js'')
   \<and> promise (snd (touchFile ext_modules ''x.ext'' (TechTest 100 ''ext'' ''/techs/ext.js'')))
     = None"
  by (simp add: touchFile_def enqueue_def TechTest_def)

section \<open>Expected content on a session with a chain\<close>

text \<open>
  The two forms of \<open>withContent\<close> on a session that holds a promise: both attach the same
  content check after the check of \<open>producesFile\<close>.
\<close>

theorem withContent_join_witness:
  "[''@import url(a.css);'', []] \<noteq> []
   \<and> withContent ext_modules [''@import url(a.css);'', ''@import url(b.css);'', []]
        (snd (producesFile ext_modules ''x.ext''
           (snd (create ext_modules (JObject [(''block'', JStr ''x'')])
              (TechTest 100 ''ext'' ''/techs/ext.js'')))))
     = enqueue ext_modules
         (ContentCall (Some ''x.ext'')
            (Some (''@import url(a.css);'' @ newline @ ''@import url(b.css);'' @ newline)))
         (snd (producesFile ext_modules ''x.ext''
            (snd (create ext_modules (JObject [(''block'', JStr ''x'')])
               (TechTest 100 ''ext'' ''/techs/ext.js'')))))
   \<and> withContent ext_modules [''@import url(a.css);'' @ newline @ ''@import url(b.css);'' @ newline]
        (snd (producesFile ext_modules ''x.ext''
           (snd (create ext_modules (JObject [(''block'', JStr ''x'')])
              (TechTest 100 ''ext'' ''/techs/ext.js'')))))
     = enqueue ext_modules
         (ContentCall (Some ''x.ext'')
            (Some (''@import url(a.css);'' @ newline @ ''@import url(b.css);'' @ newline)))
         (snd (producesFile ext_modules ''x.ext''
            (snd (create ext_modules (JObject [(''block'', JStr ''x'')])
               (TechTest 100 ''ext'' ''/techs/ext.js'')))))
   \<and> map_option handlers
        (promise (snd (withContent ext_modules
           [''@import url(a.css);'', ''@import url(b.css);'', []]
           (snd (producesFile ext_modules ''x.ext''
              (snd (create ext_modules (JObject [(''block'', JStr ''x'')])
                 (TechTest 100 ''ext'' ''/techs/ext.js'')))))))) 
     = Some [OnFulfilled (ProducesCall ''x.ext''),
             OnFulfilled (ContentCall (Some ''x.ext'')
               (Some (''@import url(a.css);'' @ newline @ ''@import url(b.css);'' @ newline)))]
   \<and> withContent ext_modules [''@import url(a.css);'', []]
        (snd (producesFile ext_modules ''x.ext''
           (snd (create ext_modules (JObject [(''block'', JStr ''x'')])
              (TechTest 100 ''ext'' ''/techs/ext.js'')))))
     = withContent ext_modules [join [''@import url(a.css);'', []] newline]
        (snd (producesFile ext_modules ''x.ext''
           (snd (create ext_modules (JObject [(''block'', JStr ''x'')])
              (TechTest 100 ''ext'' ''/techs/ext.js'')))))"
proof -
  let ?S = "snd (producesFile ext_modules ''x.ext''
           (snd (create ext_modules (JObject [(''block'', JStr ''x'')])
              (TechTest 100 ''ext'' ''/techs/ext.js''))))"
  let ?c = "ContentCall (Some ''x.ext'')
            (Some (''@import url(a.css);'' @ newline @ ''@import url(b.css);'' @ newline))"
  have n: "[''@import url(a.css);'', []] \<noteq> ([] :: string list)"
    by simp
  have lf: "lastFileName ?S = Some ''x.ext''"
    by (simp add: producesFile_def enqueue_def created Let_def)
  have pr: "promise ?S = Some \<lparr>first = Fulfilled JUndefined,
                               handlers = [OnFulfilled (ProducesCall ''x.ext'')]\<rparr>"
    by (simp add: producesFile_def enqueue_def created Let_def)
  note T = withContent_join [of ext_modules "''@import url(a.css);''" "''@import url(b.css);''"
      "[]" ?S "[''@import url(a.css);'', []]"]
  from T lf have m: "withContent ext_modules
        [''@import url(a.css);'', ''@import url(b.css);'', []] ?S = enqueue ext_modules ?c ?S"
    by simp
  from T lf have s: "withContent ext_modules
        [''@import url(a.css);'' @ newline @ ''@import url(b.css);'' @ newline] ?S
      = enqueue ext_modules ?c ?S"
    by simp
  have h: "map_option handlers (promise (snd (withContent ext_modules
        [''@import url(a.css);'', ''@import url(b.css);'', []] ?S)))
      = Some [OnFulfilled (ProducesCall ''x.ext''), OnFulfilled ?c]"
    unfolding m by (simp add: enqueue_pending [OF pr])
  from T n have g: "withContent ext_modules [''@import url(a.css);'', []] ?S
      = withContent ext_modules [join [''@import url(a.css);'', []] newline] ?S"
    by blast
  from n m s h g show ?thesis by blast
qed

end
